theory Spec2Isabelle
  imports Main "HOL-Library.Word"
begin

section \<open>Values shared by both processes\<close>

text \<open>
  The bridge moves decoded JSON between the provider, the worker and the supervisor.
  A decoded value is what Python's \<^verbatim>\<open>json\<close> module produces: \<^verbatim>\<open>None\<close>, a bool, an int,
  a float, a str, a list or a dict with string keys. A float is kept as its 64 IEEE bits,
  which is all the code ever asks of one (its truth value). A dict is an association list
  read with \<open>map_of\<close>.
\<close>

type_synonym float64 = "64 word"

datatype json =
    JNull
  | JBool bool
  | JInt int
  | JFloat float64
  | JStr string
  | JList "json list"
  | JObj "(string \<times> json) list"

type_synonym dict = "(string \<times> json) list"

text \<open>\<^verbatim>\<open>d.get(key, default)\<close>\<close>

definition dict_get :: "dict \<Rightarrow> string \<Rightarrow> json \<Rightarrow> json" where
  "dict_get d k dflt = (case map_of d k of None \<Rightarrow> dflt | Some v \<Rightarrow> v)"

text \<open>Python's truth value of a decoded JSON value (\<^verbatim>\<open>not x\<close> is its negation).\<close>

fun truthy :: "json \<Rightarrow> bool" where
  "truthy JNull = False"
| "truthy (JBool b) = b"
| "truthy (JInt i) = (i \<noteq> 0)"
| "truthy (JFloat w) = (take_bit 63 w \<noteq> 0)"
| "truthy (JStr s) = (s \<noteq> [])"
| "truthy (JList xs) = (xs \<noteq> [])"
| "truthy (JObj d) = (d \<noteq> [])"

fun type_name :: "json \<Rightarrow> string" where
  "type_name JNull = ''NoneType''"
| "type_name (JBool b) = ''bool''"
| "type_name (JInt i) = ''int''"
| "type_name (JFloat w) = ''float''"
| "type_name (JStr s) = ''str''"
| "type_name (JList xs) = ''list''"
| "type_name (JObj d) = ''dict''"

text \<open>\<^verbatim>\<open>s.startswith(p)\<close>, \<^verbatim>\<open>s.startswith((p1, p2, ...))\<close> and \<^verbatim>\<open>sub in s\<close>.\<close>

definition startswith :: "string \<Rightarrow> string \<Rightarrow> bool" where
  "startswith s p = (take (length p) s = p)"

definition startswith_any :: "string \<Rightarrow> string list \<Rightarrow> bool" where
  "startswith_any s ps = list_ex (startswith s) ps"

fun contains :: "string \<Rightarrow> string \<Rightarrow> bool" where
  "contains [] sub = (sub = [])"
| "contains (c # cs) sub = (startswith (c # cs) sub \<or> contains cs sub)"

text \<open>\<^verbatim>\<open>str(n)\<close> for an integer, as the f-strings of the source format it.\<close>

fun str_nat :: "nat \<Rightarrow> string" where
  "str_nat n =
     (if n < 10 then [''0123456789'' ! n]
      else str_nat (n div 10) @ [''0123456789'' ! (n mod 10)])"

declare str_nat.simps [simp del]

definition str_int :: "int \<Rightarrow> string" where
  "str_int i = (if i < 0 then CHR ''-'' # str_nat (nat (- i)) else str_nat (nat i))"

text \<open>
  Exceptions are values. The type covers the subclasses of Python's \<^verbatim>\<open>Exception\<close> that the
  two processes raise or receive: the three classes of \<^verbatim>\<open>server/web_search.py\<close>,
  \<^verbatim>\<open>asyncio.TimeoutError\<close>, \<^verbatim>\<open>aiohttp.ClientError\<close>, \<^verbatim>\<open>json.JSONDecodeError\<close>,
  \<^verbatim>\<open>RuntimeError\<close>, and \<open>OtherError\<close> for every other subclass (\<^verbatim>\<open>AttributeError\<close>,
  \<^verbatim>\<open>TypeError\<close>, \<^verbatim>\<open>KeyError\<close>, pydantic's \<^verbatim>\<open>ValidationError\<close>, \<^verbatim>\<open>OSError\<close>, ...).
  The argument is the message, \<^verbatim>\<open>str(e)\<close>. Messages that a library writes are shortened.
  Interrupts of the process (\<^verbatim>\<open>KeyboardInterrupt\<close>, \<^verbatim>\<open>SystemExit\<close>, task cancellation) are
  not subclasses of \<^verbatim>\<open>Exception\<close> and are not modelled.
\<close>

datatype exn =
    WebSearchError string
  | WebSearchTimeoutError string
  | WebSearchAPIError string
  | AsyncioTimeoutError
  | ClientError string
  | JSONDecodeError string
  | RuntimeError string
  | OtherError string

fun str_exn :: "exn \<Rightarrow> string" where
  "str_exn (WebSearchError m) = m"
| "str_exn (WebSearchTimeoutError m) = m"
| "str_exn (WebSearchAPIError m) = m"
| "str_exn AsyncioTimeoutError = []"
| "str_exn (ClientError m) = m"
| "str_exn (JSONDecodeError m) = m"
| "str_exn (RuntimeError m) = m"
| "str_exn (OtherError m) = m"

text \<open>The \<^verbatim>\<open>AttributeError\<close> of calling a method that the value's type does not have.\<close>

definition quoted :: "string \<Rightarrow> string" where
  "quoted s = CHR 0x27 # s @ [CHR 0x27]"

definition no_attribute :: "json \<Rightarrow> string \<Rightarrow> exn" where
  "no_attribute v attr =
     OtherError (quoted (type_name v) @ '' object has no attribute '' @ quoted attr)"


section \<open>The provider client: \<^verbatim>\<open>server/models.py\<close> and \<^verbatim>\<open>server/web_search.py\<close>\<close>

record web_search_request =
  query :: string
  max_results :: "int option"

record search_result =
  title :: string
  snippet :: string
  url :: string
  rank :: int

record web_search_response =
  results :: "search_result list"
  metadata :: dict
  response_query :: string
  total_results :: int
  response_time_ms :: float64

text \<open>
  \<^verbatim>\<open>WebSearchRequest(query=..., max_results=...)\<close>: the field constraints of the model
  (\<^verbatim>\<open>min_length=1, max_length=500\<close>; \<^verbatim>\<open>ge=1, le=20\<close>).
\<close>

definition WebSearchRequest :: "string \<Rightarrow> int option \<Rightarrow> exn + web_search_request" where
  "WebSearchRequest q m =
     (if length q < 1 \<or> 500 < length q
      then Inl (OtherError ''validation error for WebSearchRequest: query'')
      else case m of
        None \<Rightarrow> Inr \<lparr>query = q, max_results = None\<rparr>
      | Some k \<Rightarrow>
          if k < 1 \<or> 20 < k
          then Inl (OtherError ''validation error for WebSearchRequest: max_results'')
          else Inr \<lparr>query = q, max_results = Some k\<rparr>)"

text \<open>
  \<^verbatim>\<open>SearchResult(title=..., snippet=..., url=..., rank=...)\<close>: the three text fields are
  declared \<^verbatim>\<open>str\<close>, so a value of another JSON type fails validation, and \<^verbatim>\<open>validate_url\<close>
  raises unless the url starts with one of the two schemes.
\<close>

definition validate_url :: "string \<Rightarrow> exn + string" where
  "validate_url v =
     (if \<not> startswith_any v [''http://'', ''https://'']
      then Inl (OtherError ''URL must start with http:// or https://'')
      else Inr v)"

definition SearchResult :: "json \<Rightarrow> json \<Rightarrow> json \<Rightarrow> int \<Rightarrow> exn + search_result" where
  "SearchResult t s u r =
     (case t of
        JStr t' \<Rightarrow>
          (case s of
             JStr s' \<Rightarrow>
               (case u of
                  JStr u' \<Rightarrow>
                    (case validate_url u' of
                       Inl e \<Rightarrow> Inl e
                     | Inr v \<Rightarrow> Inr \<lparr>title = t', snippet = s', url = v, rank = r\<rparr>)
                | _ \<Rightarrow> Inl (OtherError ''validation error for SearchResult: url''))
           | _ \<Rightarrow> Inl (OtherError ''validation error for SearchResult: snippet''))
      | _ \<Rightarrow> Inl (OtherError ''validation error for SearchResult: title''))"

text \<open>
  The body of the inner \<^verbatim>\<open>try\<close> of \<^verbatim>\<open>_parse_results\<close> for the entry at index \<open>i\<close>:
  \<open>Inl e\<close> when it raises (\<^verbatim>\<open>result.get\<close> on a value that is no dict, \<^verbatim>\<open>url.startswith\<close> on a
  truthy value that is no str, or the model's validation), \<open>Inr None\<close> at the \<^verbatim>\<open>continue\<close>
  of the URL check, \<open>Inr (Some r)\<close> when \<open>r\<close> is appended. The rank is \<^verbatim>\<open>i + 1\<close>.
\<close>

definition parse_entry :: "nat \<Rightarrow> json \<Rightarrow> exn + search_result option" where
  "parse_entry i result =
     (case result of
        JObj d \<Rightarrow>
          (let title = dict_get d ''title'' (JStr ''No title'');
               snippet = dict_get d ''snippet'' (JStr ''No description'');
               url = dict_get d ''link'' (JStr [])
           in if \<not> truthy url then Inr None
              else case url of
                JStr u \<Rightarrow>
                  if \<not> startswith_any u [''http://'', ''https://''] then Inr None
                  else (case SearchResult title snippet url (int i + 1) of
                          Inl e \<Rightarrow> Inl e
                        | Inr r \<Rightarrow> Inr (Some r))
              | _ \<Rightarrow>
                  Inl (no_attribute url ''startswith''))
      | _ \<Rightarrow> Inl (no_attribute result ''get''))"

text \<open>
  The \<^verbatim>\<open>for i, result in enumerate(organic_results)\<close> loop: \<open>i\<close> is the index of the next
  entry, \<open>acc\<close> the list \<^verbatim>\<open>results\<close> so far. An entry whose body raises is skipped by the
  inner \<^verbatim>\<open>except Exception\<close>.
\<close>

fun parse_loop :: "nat \<Rightarrow> json list \<Rightarrow> search_result list \<Rightarrow> search_result list" where
  "parse_loop i [] acc = acc"
| "parse_loop i (result # rest) acc =
     (case parse_entry i result of
        Inr (Some r) \<Rightarrow> parse_loop (Suc i) rest (acc @ [r])
      | Inr None \<Rightarrow> parse_loop (Suc i) rest acc
      | Inl e \<Rightarrow> parse_loop (Suc i) rest acc)"

text \<open>
  \<^verbatim>\<open>WebSearchTool._parse_results(data, query)\<close>. The outer \<^verbatim>\<open>except Exception\<close> wraps what the
  body raises: its own \<^verbatim>\<open>WebSearchError\<close> for a field that is no list, and the
  \<^verbatim>\<open>AttributeError\<close> of \<^verbatim>\<open>data.get\<close> when the payload is no dict.
\<close>

definition parse_results :: "json \<Rightarrow> string \<Rightarrow> exn + search_result list" where
  "parse_results data q =
     (case data of
        JObj d \<Rightarrow>
          (case dict_get d ''organic'' (JList []) of
             JList organic_results \<Rightarrow> Inr (parse_loop 0 organic_results [])
           | _ \<Rightarrow>
               Inl (WebSearchError (''Failed to parse search results: '' @
                 ''Invalid response format: 'organic' field is not a list'')))
      | _ \<Rightarrow>
          Inl (WebSearchError (''Failed to parse search results: '' @
            str_exn (no_attribute data ''get''))))"

text \<open>
  The tool object (\<^verbatim>\<open>self\<close>) holds the settings read at construction. What the provider
  answers is an input of the model: either the request raises, or a response arrives with
  a status, and its \<^verbatim>\<open>text()\<close> and \<^verbatim>\<open>json()\<close> each give a value or raise.
\<close>

record web_search_tool =
  api_key :: string
  tool_timeout :: int
  tool_max_results :: int
  base_url :: string

datatype http_outcome =
    Post_raises exn
  | Post_response nat "exn + string" "exn + json"

text \<open>
  The first \<^verbatim>\<open>try\<close> of \<^verbatim>\<open>search\<close>, and its three \<^verbatim>\<open>except\<close> clauses. The clauses are tried in
  order, so the \<^verbatim>\<open>WebSearchAPIError\<close> raised inside the block for a status other than 200
  reaches the last one.
\<close>

definition search_request :: "http_outcome \<Rightarrow> exn + json" where
  "search_request env =
     (case env of
        Post_raises e \<Rightarrow> Inl e
      | Post_response st txt js \<Rightarrow>
          if st = 429 then Inl (WebSearchAPIError ''API rate limit exceeded'')
          else if st \<noteq> 200 then
            (case txt of
               Inl e \<Rightarrow> Inl e
             | Inr error_text \<Rightarrow>
                 Inl (WebSearchAPIError (''API error '' @ str_nat st @ '': '' @ error_text)))
          else js)"

fun search_except :: "web_search_tool \<Rightarrow> exn \<Rightarrow> exn" where
  "search_except self AsyncioTimeoutError =
     WebSearchTimeoutError (''Request timed out after '' @ str_int (tool_timeout self) @ '' seconds'')"
| "search_except self (ClientError m) = WebSearchError (''Network error: '' @ m)"
| "search_except self e = WebSearchError (''Unexpected error: '' @ str_exn e)"

text \<open>
  \<^verbatim>\<open>WebSearchTool.search(request)\<close>. \<open>elapsed\<close> is the measured \<^verbatim>\<open>response_time_ms\<close>.
\<close>

definition search ::
  "web_search_tool \<Rightarrow> http_outcome \<Rightarrow> float64 \<Rightarrow> web_search_request \<Rightarrow> exn + web_search_response"
where
  "search self env elapsed request =
     (case search_request env of
        Inl e \<Rightarrow> Inl (search_except self e)
      | Inr data \<Rightarrow>
          (case parse_results data (query request) of
             Inl e \<Rightarrow> Inl (WebSearchError (''Failed to parse API response: '' @ str_exn e))
           | Inr rs \<Rightarrow>
               Inr \<lparr>results = rs,
                    metadata = [(''api_provider'', JStr ''serper''),
                                (''status_code'', JInt 200),
                                (''request_timeout'', JInt (tool_timeout self))],
                    response_query = query request,
                    total_results = int (length rs),
                    response_time_ms = elapsed\<rparr>))"

text \<open>
  Two readings of one entry of the provider's list, stated on the entry alone and used
  to state the properties of the loop. \<open>link\<close> is the entry's URL text; \<open>well_formed\<close> is an
  entry as the provider documents it: a dict whose \<^verbatim>\<open>link\<close> is a str with one of the two
  schemes and whose \<^verbatim>\<open>title\<close> and \<^verbatim>\<open>snippet\<close>, when present, are strs.
\<close>

definition link :: "json \<Rightarrow> string" where
  "link e =
     (case e of
        JObj d \<Rightarrow> (case dict_get d ''link'' (JStr []) of JStr u \<Rightarrow> u | _ \<Rightarrow> [])
      | _ \<Rightarrow> [])"

definition is_str :: "json \<Rightarrow> bool" where
  "is_str v = (case v of JStr s \<Rightarrow> True | _ \<Rightarrow> False)"

definition well_formed :: "json \<Rightarrow> bool" where
  "well_formed e =
     (case e of
        JObj d \<Rightarrow>
          is_str (dict_get d ''title'' (JStr ''No title'')) \<and>
          is_str (dict_get d ''snippet'' (JStr ''No description'')) \<and>
          (case dict_get d ''link'' (JStr []) of
             JStr u \<Rightarrow> startswith_any u [''http://'', ''https://'']
           | _ \<Rightarrow> False)
      | _ \<Rightarrow> False)"


section \<open>The worker's handler: \<^verbatim>\<open>server/mcp_server.py\<close>\<close>

text \<open>
  The tool function \<^verbatim>\<open>web_search(query, max_results, ctx)\<close>. \<open>search_fn\<close> stands for
  \<^verbatim>\<open>self.web_search_tool.search\<close>. \<open>web_search_try\<close> is the body of the \<^verbatim>\<open>try\<close>,
  \<open>web_search_except\<close> the four \<^verbatim>\<open>except\<close> clauses in their order; a result \<open>Inl e\<close> of
  the handler would be an exception that leaves it. Logging is left out.
\<close>

definition format_result :: "search_result \<Rightarrow> json" where
  "format_result r =
     JObj [(''title'', JStr (title r)), (''snippet'', JStr (snippet r)),
           (''url'', JStr (url r)), (''rank'', JInt (rank r))]"

definition web_search_try ::
  "(web_search_request \<Rightarrow> exn + web_search_response) \<Rightarrow> string \<Rightarrow> int option \<Rightarrow> exn + dict"
where
  "web_search_try search_fn q m =
     (case WebSearchRequest q m of
        Inl e \<Rightarrow> Inl e
      | Inr request \<Rightarrow>
          (case search_fn request of
             Inl e \<Rightarrow> Inl e
           | Inr response \<Rightarrow>
               Inr [(''results'', JList (map format_result (results response))),
                    (''metadata'',
                       JObj [(''query'', JStr (response_query response)),
                             (''total_results'', JInt (total_results response)),
                             (''response_time_ms'', JFloat (response_time_ms response)),
                             (''api_provider'', JStr ''serper'')]),
                    (''status'', JStr ''success'')]))"

fun web_search_except :: "exn \<Rightarrow> exn + dict" where
  "web_search_except (WebSearchTimeoutError m) =
     Inr [(''error'', JStr ''Search request timed out''), (''details'', JStr m),
          (''status'', JStr ''error''), (''error_type'', JStr ''timeout'')]"
| "web_search_except (WebSearchAPIError m) =
     Inr [(''error'', JStr ''API error occurred''), (''details'', JStr m),
          (''status'', JStr ''error''), (''error_type'', JStr ''api_error'')]"
| "web_search_except (WebSearchError m) =
     Inr [(''error'', JStr ''Search error occurred''), (''details'', JStr m),
          (''status'', JStr ''error''), (''error_type'', JStr ''search_error'')]"
| "web_search_except e =
     Inr [(''error'', JStr ''Unexpected error occurred''),
          (''details'', JStr ''Internal server error''),
          (''status'', JStr ''error''), (''error_type'', JStr ''internal_error'')]"

definition web_search ::
  "(web_search_request \<Rightarrow> exn + web_search_response) \<Rightarrow> string \<Rightarrow> int option \<Rightarrow> exn + dict"
where
  "web_search search_fn q m =
     (case web_search_try search_fn q m of
        Inr mcp_response \<Rightarrow> Inr mcp_response
      | Inl e \<Rightarrow> web_search_except e)"


section \<open>The supervisor: \<^verbatim>\<open>MCPClient\<close> in \<^verbatim>\<open>client/fastapi_client.py\<close>\<close>

text \<open>
  The handle of the child process, as far as the supervisor reads it: \<open>exit_status\<close> is
  what \<^verbatim>\<open>poll()\<close> returns (\<open>None\<close> while the child lives), \<open>stderr\<close> the text its error pipe
  gives (\<open>None\<close> when there is no pipe). The client object has three fields.
\<close>

record popen =
  exit_status :: "int option"
  stderr :: "string option"

record mcp_client =
  process :: "popen option"
  is_running :: bool
  timeout :: int

definition MCPClient :: mcp_client where
  "MCPClient = \<lparr>process = None, is_running = False, timeout = 30\<rparr>"

text \<open>
  What the operating system does when \<^verbatim>\<open>stop_server\<close> signals the child is an input:
  \<^verbatim>\<open>terminate()\<close> or the wait raises an exception other than the timeout, the child exits
  within the five seconds, or the wait times out and \<^verbatim>\<open>kill()\<close> returns or raises.
  The \<^verbatim>\<open>finally\<close> clause runs in each case; only an exception of \<^verbatim>\<open>kill()\<close>, raised inside
  an \<^verbatim>\<open>except\<close> clause, leaves the function.
\<close>

datatype stop_outcome =
    Terminate_raises exn
  | Exits_in_time
  | Wait_timeout_kill_ok
  | Wait_timeout_kill_raises exn

definition stop_server :: "stop_outcome \<Rightarrow> mcp_client \<Rightarrow> (exn + unit) \<times> mcp_client" where
  "stop_server env self =
     (if process self \<noteq> None \<and> is_running self
      then (case env of Wait_timeout_kill_raises e \<Rightarrow> Inl e | _ \<Rightarrow> Inr (),
            self\<lparr>is_running := False, process := None\<rparr>)
      else (Inr (), self))"

definition cleanup :: "stop_outcome \<Rightarrow> mcp_client \<Rightarrow> (exn + unit) \<times> mcp_client" where
  "cleanup env self = stop_server env self"

text \<open>
  \<^verbatim>\<open>start_server\<close>. \<open>spawn\<close> is what \<^verbatim>\<open>subprocess.Popen\<close> does: it raises, or gives the handle
  as it stands after the one-second sleep. The \<^verbatim>\<open>except Exception\<close> clause calls
  \<^verbatim>\<open>cleanup\<close> and raises the exception again (or the one \<^verbatim>\<open>cleanup\<close> raised).
\<close>

definition start_server_except ::
  "stop_outcome \<Rightarrow> exn \<Rightarrow> mcp_client \<Rightarrow> (exn + unit) \<times> mcp_client"
where
  "start_server_except env e self =
     (case cleanup env self of
        (Inl e', self') \<Rightarrow> (Inl e', self')
      | (Inr u, self') \<Rightarrow> (Inl e, self'))"

definition start_server ::
  "exn + popen \<Rightarrow> stop_outcome \<Rightarrow> mcp_client \<Rightarrow> (exn + unit) \<times> mcp_client"
where
  "start_server spawn env self =
     (if is_running self then (Inr (), self)
      else case spawn of
        Inl e \<Rightarrow> start_server_except env e self
      | Inr p \<Rightarrow>
          (let self1 = self\<lparr>process := Some p\<rparr>
           in if exit_status p = None then (Inr (), self1\<lparr>is_running := True\<rparr>)
              else
                (let stderr_output = (case stderr p of Some t \<Rightarrow> t | None \<Rightarrow> ''Unknown error'')
                 in start_server_except env
                      (RuntimeError (''MCP server failed to start: '' @ stderr_output)) self1)))"

definition check_health :: "mcp_client \<Rightarrow> bool \<times> mcp_client" where
  "check_health self =
     (if \<not> is_running self \<or> process self = None then (False, self)
      else if exit_status (the (process self)) \<noteq> None
        then (False, self\<lparr>is_running := False\<rparr>)
      else (True, self))"

text \<open>
  Library functions that \<^verbatim>\<open>call_tool\<close> and the front end use are parameters:
  \<^verbatim>\<open>json.loads\<close>, \<^verbatim>\<open>str()\<close> of a decoded value that is no str, and pydantic's conversion of
  a decoded value to an \<^verbatim>\<open>int\<close> field.
\<close>

record pylib =
  json_loads :: "string \<Rightarrow> exn + json"
  py_str :: "json \<Rightarrow> string"
  lax_int :: "json \<Rightarrow> int option"

definition format_value :: "pylib \<Rightarrow> json \<Rightarrow> string" where
  "format_value L v = (case v of JStr s \<Rightarrow> s | _ \<Rightarrow> py_str L v)"

text \<open>
  \<^verbatim>\<open>s.strip()\<close>. A \<open>char\<close> stands for a code point below 256; Python's white space there
  is U+0009 to U+000D, U+001C to U+0020, U+0085 and U+00A0.
\<close>

definition isspace :: "char \<Rightarrow> bool" where
  "isspace c =
     (let n = (of_char c :: nat)
      in (9 \<le> n \<and> n \<le> 13) \<or> (28 \<le> n \<and> n \<le> 32) \<or> n = 133 \<or> n = 160)"

definition strip :: "string \<Rightarrow> string" where
  "strip s = rev (dropWhile isspace (rev (dropWhile isspace s)))"

text \<open>
  \<^verbatim>\<open>JSONRPCResponse(**response_data)\<close>: the data must be a dict, \<^verbatim>\<open>id\<close> is required and a
  str, \<^verbatim>\<open>jsonrpc\<close> is a str with a default, \<^verbatim>\<open>result\<close> and \<^verbatim>\<open>error\<close> are absent, null or
  a dict.
\<close>

record jsonrpc_response =
  jsonrpc :: string
  response_id :: string
  result :: "dict option"
  error :: "dict option"

definition optional_dict :: "string \<Rightarrow> json option \<Rightarrow> exn + dict option" where
  "optional_dict field v =
     (case v of
        None \<Rightarrow> Inr None
      | Some JNull \<Rightarrow> Inr None
      | Some (JObj d) \<Rightarrow> Inr (Some d)
      | Some _ \<Rightarrow> Inl (OtherError (''validation error for JSONRPCResponse: '' @ field)))"

definition JSONRPCResponse :: "json \<Rightarrow> exn + jsonrpc_response" where
  "JSONRPCResponse response_data =
     (case response_data of
        JObj d \<Rightarrow>
          (case (case map_of d ''jsonrpc'' of
                   None \<Rightarrow> Inr ''2.0''
                 | Some (JStr v) \<Rightarrow> Inr v
                 | Some _ \<Rightarrow> Inl (OtherError ''validation error for JSONRPCResponse: jsonrpc'')) of
             Inl e \<Rightarrow> Inl e
           | Inr v \<Rightarrow>
               (case map_of d ''id'' of
                  Some (JStr i) \<Rightarrow>
                    (case optional_dict ''result'' (map_of d ''result'') of
                       Inl e \<Rightarrow> Inl e
                     | Inr r \<Rightarrow>
                         (case optional_dict ''error'' (map_of d ''error'') of
                            Inl e \<Rightarrow> Inl e
                          | Inr er \<Rightarrow>
                              Inr \<lparr>jsonrpc = v, response_id = i, result = r, error = er\<rparr>))
                | _ \<Rightarrow> Inl (OtherError ''validation error for JSONRPCResponse: id'')))
      | _ \<Rightarrow>
          Inl (OtherError
            (''client.fastapi_client.JSONRPCResponse() argument after ** must be a mapping, not ''
             @ type_name response_data)))"

text \<open>
  What the pipes do during one call is an input: the write to the child's stdin raises,
  the read of one line from its stdout times out, raises, or gives a line (the empty
  string at end of file).
\<close>

datatype pipe_outcome =
    Write_raises exn
  | Read_timeout
  | Read_raises exn
  | Read_line string

text \<open>
  The \<^verbatim>\<open>try\<close> block of \<^verbatim>\<open>call_tool\<close>. \<^verbatim>\<open>if response.error\<close> and \<^verbatim>\<open>if not response.result\<close>
  test the truth value of an optional dict: \<^verbatim>\<open>None\<close> and the empty dict are both false.
\<close>

definition call_tool_try :: "pylib \<Rightarrow> pipe_outcome \<Rightarrow> exn + dict" where
  "call_tool_try L io =
     (case io of
        Write_raises e \<Rightarrow> Inl e
      | Read_timeout \<Rightarrow> Inl AsyncioTimeoutError
      | Read_raises e \<Rightarrow> Inl e
      | Read_line response_line \<Rightarrow>
          if response_line = [] then Inl (RuntimeError ''No response received from MCP server'')
          else
            (case json_loads L (strip response_line) of
               Inl e \<Rightarrow> Inl e
             | Inr response_data \<Rightarrow>
                 (case JSONRPCResponse response_data of
                    Inl e \<Rightarrow> Inl e
                  | Inr response \<Rightarrow>
                      if error response \<noteq> None \<and> error response \<noteq> Some [] then
                        Inl (RuntimeError (''MCP error: '' @
                          format_value L
                            (dict_get (the (error response)) ''message''
                               (JStr ''Unknown MCP error''))))
                      else if result response = None \<or> result response = Some [] then
                        Inl (RuntimeError ''No result in MCP response'')
                      else Inr (the (result response)))))"

fun call_tool_except :: "mcp_client \<Rightarrow> exn \<Rightarrow> exn" where
  "call_tool_except self AsyncioTimeoutError =
     RuntimeError (''MCP tool call timed out after '' @ str_int (timeout self) @ '' seconds'')"
| "call_tool_except self (JSONDecodeError m) =
     RuntimeError (''Invalid JSON response from MCP server: '' @ m)"
| "call_tool_except self e = RuntimeError (''Error calling MCP tool: '' @ str_exn e)"

text \<open>
  \<^verbatim>\<open>call_tool(method, params)\<close>. The request line it writes goes to the child and is not
  part of the result; the fields of the client are not changed.
\<close>

definition call_tool ::
  "pylib \<Rightarrow> pipe_outcome \<Rightarrow> mcp_client \<Rightarrow> string \<Rightarrow> dict \<Rightarrow> exn + dict"
where
  "call_tool L io self method params =
     (if \<not> is_running self \<or> process self = None
      then Inl (RuntimeError ''MCP server is not running'')
      else case call_tool_try L io of
        Inl e \<Rightarrow> Inl (call_tool_except self e)
      | Inr r \<Rightarrow> Inr r)"

text \<open>\<^verbatim>\<open>MCPClient.search(query, max_results)\<close>\<close>

definition client_search ::
  "pylib \<Rightarrow> pipe_outcome \<Rightarrow> mcp_client \<Rightarrow> string \<Rightarrow> int option \<Rightarrow> exn + dict"
where
  "client_search L io self q m =
     call_tool L io self ''web_search''
       [(''query'', JStr q),
        (''max_results'', JInt (case m of None \<Rightarrow> 10 | Some k \<Rightarrow> if k = 0 then 10 else k))]"


section \<open>The HTTP front end: the handlers of \<^verbatim>\<open>client/fastapi_client.py\<close>\<close>

record search_response =
  response_results :: "search_result list"
  response_metadata :: dict
  status :: string
  response_error :: "string option"
  error_type :: "string option"

record health_response =
  health_status :: string
  mcp_server_running :: bool
  health_error :: "string option"

record http_exception =
  status_code :: nat
  detail :: string

text \<open>
  \<^verbatim>\<open>for item in result.get("results", [])\<close>: a list gives its elements, a str its
  characters, a dict its keys; the other values are not iterable.
\<close>

definition iterate :: "json \<Rightarrow> exn + json list" where
  "iterate v =
     (case v of
        JList xs \<Rightarrow> Inr xs
      | JStr s \<Rightarrow> Inr (map (\<lambda>c. JStr [c]) s)
      | JObj d \<Rightarrow> Inr (map (\<lambda>kv. JStr (fst kv)) d)
      | _ \<Rightarrow> Inl (OtherError (quoted (type_name v) @ '' object is not iterable'')))"

text \<open>
  \<^verbatim>\<open>item[key]\<close> for a str key: the value of a dict's key or its \<^verbatim>\<open>KeyError\<close>, and the
  \<^verbatim>\<open>TypeError\<close> of a str, of a list, and of a value that has no subscript.
\<close>

definition getitem :: "json \<Rightarrow> string \<Rightarrow> exn + json" where
  "getitem item k =
     (case item of
        JObj d \<Rightarrow> (case map_of d k of None \<Rightarrow> Inl (OtherError (quoted k)) | Some v \<Rightarrow> Inr v)
      | JStr s \<Rightarrow> Inl (OtherError (''string indices must be integers, not '' @ quoted ''str''))
      | JList xs \<Rightarrow> Inl (OtherError ''list indices must be integers or slices, not str'')
      | _ \<Rightarrow> Inl (OtherError (quoted (type_name item) @ '' object is not subscriptable'')))"

text \<open>
  The front end's own \<^verbatim>\<open>SearchResult\<close> model (no validator), built from the four
  subscripts of one item in the order of the source.
\<close>

definition client_SearchResult :: "pylib \<Rightarrow> json \<Rightarrow> exn + search_result" where
  "client_SearchResult L item =
     (case getitem item ''title'' of
        Inl e \<Rightarrow> Inl e
      | Inr t \<Rightarrow>
     (case getitem item ''snippet'' of
        Inl e \<Rightarrow> Inl e
      | Inr sn \<Rightarrow>
     (case getitem item ''url'' of
        Inl e \<Rightarrow> Inl e
      | Inr u \<Rightarrow>
     (case getitem item ''rank'' of
        Inl e \<Rightarrow> Inl e
      | Inr rk \<Rightarrow>
     (case (t, sn, u, lax_int L rk) of
        (JStr t', JStr sn', JStr u', Some r) \<Rightarrow>
          Inr \<lparr>title = t', snippet = sn', url = u', rank = r\<rparr>
      | _ \<Rightarrow> Inl (OtherError ''validation error for SearchResult''))))))"

fun convert_items :: "pylib \<Rightarrow> json list \<Rightarrow> search_result list \<Rightarrow> exn + search_result list" where
  "convert_items L [] search_results = Inr search_results"
| "convert_items L (item # rest) search_results =
     (case client_SearchResult L item of
        Inl e \<Rightarrow> Inl e
      | Inr r \<Rightarrow> convert_items L rest (search_results @ [r]))"

definition optional_str :: "json \<Rightarrow> exn + string option" where
  "optional_str v =
     (case v of
        JNull \<Rightarrow> Inr None
      | JStr s \<Rightarrow> Inr (Some s)
      | _ \<Rightarrow> Inl (OtherError ''validation error for SearchResponse''))"

text \<open>
  \<^verbatim>\<open>POST /search\<close>. The request has passed FastAPI's validation. \<open>search_web_try\<close> is the
  body of the \<^verbatim>\<open>try\<close>; the \<^verbatim>\<open>except Exception\<close> clause turns every exception into an
  \<^verbatim>\<open>HTTPException\<close> with status 500.
\<close>

definition search_web_try ::
  "pylib \<Rightarrow> pipe_outcome \<Rightarrow> mcp_client \<Rightarrow> web_search_request \<Rightarrow> exn + search_response"
where
  "search_web_try L io self request =
     (case client_search L io self (query request) (max_results request) of
        Inl e \<Rightarrow> Inl e
      | Inr res \<Rightarrow>
          if map_of res ''status'' = Some (JStr ''success'') then
            (case iterate (dict_get res ''results'' (JList [])) of
               Inl e \<Rightarrow> Inl e
             | Inr items \<Rightarrow>
                 (case convert_items L items [] of
                    Inl e \<Rightarrow> Inl e
                  | Inr search_results \<Rightarrow>
                      (case dict_get res ''metadata'' (JObj []) of
                         JObj md \<Rightarrow>
                           Inr \<lparr>response_results = search_results, response_metadata = md,
                                status = ''success'', response_error = None,
                                error_type = None\<rparr>
                       | _ \<Rightarrow> Inl (OtherError ''validation error for SearchResponse''))))
          else
            (case optional_str (dict_get res ''error'' (JStr ''Unknown error'')) of
               Inl e \<Rightarrow> Inl e
             | Inr er \<Rightarrow>
                 (case optional_str (dict_get res ''error_type'' (JStr ''unknown'')) of
                    Inl e \<Rightarrow> Inl e
                  | Inr et \<Rightarrow>
                      Inr \<lparr>response_results = [], response_metadata = [],
                           status = ''error'', response_error = er, error_type = et\<rparr>)))"

definition search_web ::
  "pylib \<Rightarrow> pipe_outcome \<Rightarrow> mcp_client \<Rightarrow> web_search_request \<Rightarrow> http_exception + search_response"
where
  "search_web L io self request =
     (case search_web_try L io self request of
        Inl e \<Rightarrow> Inl \<lparr>status_code = 500, detail = ''Search failed: '' @ str_exn e\<rparr>
      | Inr r \<Rightarrow> Inr r)"

text \<open>\<^verbatim>\<open>GET /health\<close>: the answer, and the client after the check.\<close>

definition health_check :: "mcp_client \<Rightarrow> health_response \<times> mcp_client" where
  "health_check self =
     (case check_health self of
        (is_healthy, self') \<Rightarrow>
          if is_healthy
          then (\<lparr>health_status = ''healthy'', mcp_server_running = True, health_error = None\<rparr>,
                self')
          else (\<lparr>health_status = ''unhealthy'', mcp_server_running = False,
                 health_error = Some ''MCP server is not responding''\<rparr>, self'))"


section \<open>Histories of the supervisor\<close>

text \<open>
  One event is an operation on the client together with what the environment does during
  it, or the exit of the child with a status, which the handle shows from then on.
  \<open>step\<close> gives the answers of the health checks made (none or one) and the next client;
  \<open>run\<close> does so for a list of events. A call leaves the client as it is.
\<close>

datatype event =
    Start "exn + popen" stop_outcome
  | Stop stop_outcome
  | Check_health
  | Call pipe_outcome string dict
  | Child_exits int

fun is_start :: "event \<Rightarrow> bool" where
  "is_start (Start spawn env) = True"
| "is_start e = False"

definition child_exits :: "int \<Rightarrow> mcp_client \<Rightarrow> mcp_client" where
  "child_exits code self =
     self\<lparr>process := map_option (\<lambda>p. p\<lparr>exit_status := Some code\<rparr>) (process self)\<rparr>"

fun step :: "event \<Rightarrow> mcp_client \<Rightarrow> bool list \<times> mcp_client" where
  "step (Start spawn env) self = ([], snd (start_server spawn env self))"
| "step (Stop env) self = ([], snd (stop_server env self))"
| "step Check_health self = ([fst (check_health self)], snd (check_health self))"
| "step (Call io method params) self = ([], self)"
| "step (Child_exits code) self = ([], child_exits code self)"

text \<open>
  A client is consistent when a set running flag comes with a process handle. The fresh
  client is, and every event keeps it so.
\<close>

definition consistent :: "mcp_client \<Rightarrow> bool" where
  "consistent self = (\<not> is_running self \<or> process self \<noteq> None)"

fun run :: "event list \<Rightarrow> mcp_client \<Rightarrow> bool list \<times> mcp_client" where
  "run [] self = ([], self)"
| "run (e # es) self =
     (case step e self of
        (obs, self') \<Rightarrow> (case run es self' of (obs', self'') \<Rightarrow> (obs @ obs', self'')))"


section \<open>Properties of the result parsing\<close>

lemma parse_entry_rank: "parse_entry i e = Inr (Some r) \<Longrightarrow> rank r = int i + 1"
  by (auto simp: parse_entry_def SearchResult_def validate_url_def Let_def
      split: json.splits if_splits sum.splits)

lemma parse_entry_url:
  "parse_entry i e = Inr (Some r) \<Longrightarrow> startswith_any (url r) [''http://'', ''https://'']"
  by (auto simp: parse_entry_def SearchResult_def validate_url_def Let_def
      split: json.splits if_splits sum.splits)

lemma parse_entry_iff: "(\<exists>r. parse_entry i e = Inr (Some r)) \<longleftrightarrow> well_formed e"
  by (auto simp: well_formed_def is_str_def parse_entry_def SearchResult_def validate_url_def Let_def
      startswith_any_def startswith_def
      split: json.splits if_splits sum.splits)

lemma parse_entry_well_formed:
  "well_formed e \<Longrightarrow> \<exists>r. parse_entry i e = Inr (Some r) \<and> url r = link e"
  by (auto simp: well_formed_def is_str_def link_def parse_entry_def SearchResult_def validate_url_def Let_def
       startswith_any_def startswith_def
      split: json.splits if_splits sum.splits)

lemma parse_loop_ranks:
  "map rank (parse_loop i xs acc) =
     map rank acc @ map (\<lambda>(j, e). int j + 1) (filter (\<lambda>(j, e). well_formed e) (enumerate i xs))"
proof (induction xs arbitrary: i acc)
  case Nil
  show ?case by simp
next
  case (Cons x xs)
  show ?case
  proof (cases "well_formed x")
    case True
    then obtain r where r: "parse_entry i x = Inr (Some r)"
      using parse_entry_iff [of i x] by blast
    show ?thesis using True r parse_entry_rank [OF r] Cons.IH [of "Suc i" "acc @ [r]"] by simp
  next
    case False
    then have "\<nexists>r. parse_entry i x = Inr (Some r)"
      using parse_entry_iff [of i x] by blast
    then show ?thesis using False Cons.IH [of "Suc i" acc]
      by (simp split: sum.splits option.splits)
  qed
qed

lemma sorted_enumerate: "sorted_wrt (\<lambda>a b. fst a < fst b) (enumerate i xs)"
  by (induction xs arbitrary: i) (auto simp: in_set_enumerate_eq)

lemma sorted_ranks:
  "sorted_wrt (<) (map (\<lambda>(j, e). int j + 1) (filter P (enumerate i xs)))"
proof -
  have "sorted_wrt (\<lambda>a b. fst a < fst b) (filter P (enumerate i xs))"
    using sorted_enumerate by (rule sorted_wrt_filter)
  then have "sorted_wrt (\<lambda>a b. int (fst a) + 1 < int (fst b) + 1) (filter P (enumerate i xs))"
    by (rule sorted_wrt_mono_rel [rotated]) simp
  then show ?thesis
    by (simp only: sorted_wrt_map case_prod_beta)
qed

lemma parse_loop_urls:
  "\<forall>r\<in>set acc. startswith_any (url r) [''http://'', ''https://''] \<Longrightarrow>
   \<forall>r\<in>set (parse_loop i xs acc). startswith_any (url r) [''http://'', ''https://'']"
proof (induction xs arbitrary: i acc)
  case Nil
  then show ?case by simp
next
  case (Cons x xs)
  show ?case
  proof (cases "parse_entry i x")
    case (Inl e)
    have "parse_loop i (x # xs) acc = parse_loop (Suc i) xs acc"
      using Inl by simp
    then show ?thesis using Cons.IH [OF Cons.prems] by simp
  next
    case (Inr o1)
    show ?thesis
    proof (cases o1)
      case None
      have "parse_loop i (x # xs) acc = parse_loop (Suc i) xs acc"
        using Inr None by simp
      then show ?thesis using Cons.IH [OF Cons.prems] by simp
    next
      case (Some r)
      have step: "parse_loop i (x # xs) acc = parse_loop (Suc i) xs (acc @ [r])"
        using Inr Some by simp
      have "startswith_any (url r) [''http://'', ''https://'']"
        using Inr Some parse_entry_url by blast
      then have "\<forall>r\<in>set (acc @ [r]). startswith_any (url r) [''http://'', ''https://'']"
        using Cons.prems by simp
      then show ?thesis unfolding step by (rule Cons.IH)
    qed
  qed
qed


lemma parse_loop_well_formed:
  "\<forall>e\<in>set xs. well_formed e \<Longrightarrow>
     length (parse_loop i xs acc) = length acc + length xs \<and>
     map url (parse_loop i xs acc) = map url acc @ map link xs"
proof (induction xs arbitrary: i acc)
  case Nil
  show ?case by simp
next
  case (Cons x xs)
  then obtain r where r: "parse_entry i x = Inr (Some r)" "url r = link x"
    using parse_entry_well_formed [of x i] by auto
  show ?case using r Cons.IH [of "Suc i" "acc @ [r]"] Cons.prems by simp
qed

lemma ranks_all: "map (\<lambda>(j, e). int j + 1) (enumerate 0 xs) = map int [1..<Suc (length xs)]"
proof -
  have "map (\<lambda>(j, e). int j + 1) ys = map int (map Suc (map fst ys))" for ys :: "(nat \<times> 'b) list"
    by (induction ys) auto
  then have "map (\<lambda>(j, e). int j + 1) (enumerate 0 xs) = map int (map Suc (map fst (enumerate 0 xs)))" .
  also have "\<dots> = map int (map Suc [0..<length xs])" by (simp only: map_fst_enumerate add_0)
  also have "\<dots> = map int [1..<Suc (length xs)]" by (simp only: map_Suc_upt One_nat_def)
  finally show ?thesis .
qed

lemma parse_entry_link: "parse_entry i e = Inr (Some r) \<Longrightarrow> url r = link e"
  by (auto simp: link_def parse_entry_def SearchResult_def validate_url_def Let_def
      split: json.splits if_splits sum.splits)

lemma parse_loop_links:
  "map url (parse_loop i xs acc) = map url acc @ map link (filter well_formed xs)"
proof (induction xs arbitrary: i acc)
  case Nil
  show ?case by simp
next
  case (Cons x xs)
  show ?case
  proof (cases "well_formed x")
    case True
    then obtain r where r: "parse_entry i x = Inr (Some r)"
      using parse_entry_iff [of i x] by blast
    show ?thesis using True r parse_entry_link [OF r] Cons.IH [of "Suc i" "acc @ [r]"] by simp
  next
    case False
    then have "\<nexists>r. parse_entry i x = Inr (Some r)"
      using parse_entry_iff [of i x] by blast
    then show ?thesis using False Cons.IH [of "Suc i" acc]
      by (simp split: sum.splits option.splits)
  qed
qed

lemma parse_results_list:
  "map_of d ''organic'' = Some (JList xs) \<Longrightarrow> parse_results (JObj d) q = Inr (parse_loop 0 xs [])"
  by (simp add: parse_results_def dict_get_def)

lemma search_ok:
  "parse_results data (query request) = Inr rs \<Longrightarrow>
   search self (Post_response 200 body (Inr data)) elapsed request =
     Inr \<lparr>results = rs,
          metadata = [(''api_provider'', JStr ''serper''), (''status_code'', JInt 200),
                      (''request_timeout'', JInt (tool_timeout self))],
          response_query = query request, total_results = int (length rs),
          response_time_ms = elapsed\<rparr>"
  by (simp add: search_def search_request_def)

text \<open>
  Claim C1, as amended. For a payload whose \<^verbatim>\<open>organic\<close> field is a list, parsing succeeds;
  after the entries without a usable URL, and those whose title or snippet is present but
  no str, are excluded, the results are the well-formed entries in their original order,
  and the rank of each is the 1-based position of its entry in the provider's list, not
  its position among the survivors: the ranks increase strictly, and they are \<open>1..K\<close> when
  no entry was skipped.
\<close>

theorem parse_results_ranks:
  assumes "map_of d ''organic'' = Some (JList xs)"
  shows "\<exists>rs. parse_results (JObj d) q = Inr rs \<and>
           map url rs = map link (filter well_formed xs) \<and>
           map rank rs = map (\<lambda>(j, e). int j + 1) (filter (\<lambda>(j, e). well_formed e) (enumerate 0 xs)) \<and>
           sorted_wrt (<) (map rank rs) \<and>
           ((\<forall>e\<in>set xs. well_formed e) \<longrightarrow> map rank rs = map int [1..<Suc (length rs)])"
proof -
  let ?rs = "parse_loop 0 xs []"
  have res: "parse_results (JObj d) q = Inr ?rs"
    using assms by (rule parse_results_list)
  have ranks: "map rank ?rs = map (\<lambda>(j, e). int j + 1) (filter (\<lambda>(j, e). well_formed e) (enumerate 0 xs))"
    using parse_loop_ranks [of 0 xs "[]"] by simp
  have links: "map url ?rs = map link (filter well_formed xs)"
    using parse_loop_links [of 0 xs "[]"] by simp
  have sorted: "sorted_wrt (<) (map rank ?rs)"
    unfolding ranks by (rule sorted_ranks)
  have full: "map rank ?rs = map int [1..<Suc (length ?rs)]" if "\<forall>e\<in>set xs. well_formed e"
  proof -
    have all: "filter (\<lambda>(j, e). well_formed e) (enumerate 0 xs) = enumerate 0 xs"
      using that by (auto simp: filter_id_conv in_set_enumerate_eq)
    have "length (map rank ?rs) = length xs"
      unfolding ranks all by simp
    then have "length ?rs = length xs" by simp
    then show ?thesis using ranks all ranks_all [of xs] by simp
  qed
  show ?thesis using res ranks links sorted full by blast
qed

theorem parse_results_ranks_witness:
  "\<exists>rs. parse_results
     (JObj [(''organic'', JList [JObj [(''title'', JStr ''no link'')],
                                 JObj [(''link'', JStr ''https://b.example'')]])]) ''q'' = Inr rs \<and>
     map url rs = [''https://b.example''] \<and> map rank rs = [2]"
proof -
  let ?xs = "[JObj [(''title'', JStr ''no link'')], JObj [(''link'', JStr ''https://b.example'')]]"
  have h1: "map_of [(''organic'', JList ?xs)] ''organic'' = Some (JList ?xs)" by simp
  have k1: "\<not> well_formed (JObj [(''title'', JStr ''no link'')])"
    by (simp add: well_formed_def is_str_def dict_get_def startswith_any_def startswith_def)
  have k2: "well_formed (JObj [(''link'', JStr ''https://b.example'')])"
    by (simp add: well_formed_def is_str_def dict_get_def startswith_any_def startswith_def)
  have l: "map link (filter well_formed ?xs) = [''https://b.example'']"
    using k1 k2 by (simp add: link_def dict_get_def)
  have r: "map (\<lambda>(j, e). int j + 1) (filter (\<lambda>(j, e). well_formed e) (enumerate 0 ?xs)) = [2]"
    using k1 k2 by simp
  obtain rs where "parse_results (JObj [(''organic'', JList ?xs)]) ''q'' = Inr rs"
    "map url rs = map link (filter well_formed ?xs)"
    "map rank rs = map (\<lambda>(j, e). int j + 1) (filter (\<lambda>(j, e). well_formed e) (enumerate 0 ?xs))"
    using parse_results_ranks [OF h1, of "''q''"] by blast
  then have "parse_results (JObj [(''organic'', JList ?xs)]) ''q'' = Inr rs \<and>
     map url rs = [''https://b.example''] \<and> map rank rs = [2]"
    unfolding l r by simp
  then show ?thesis by (rule exI [where x = rs])
qed

text \<open>
  Claim C1 as stated fails: when the first of two entries has no URL, the one result
  that is kept has rank 2, so the ranks are not \<open>1..K\<close>.
\<close>

theorem parse_results_ranks_not_contiguous:
  "parse_results
     (JObj [(''organic'', JList [JObj [(''title'', JStr ''no link'')],
                                 JObj [(''link'', JStr ''https://b.example'')]])]) ''q''
     = Inr [\<lparr>title = ''No title'', snippet = ''No description'',
             url = ''https://b.example'', rank = 2\<rparr>]
   \<and> map rank [\<lparr>title = ''No title'', snippet = ''No description'',
             url = ''https://b.example'', rank = 2\<rparr>] \<noteq> map int [1..<Suc 1]"
  by (simp add: parse_results_def dict_get_def parse_entry_def SearchResult_def validate_url_def
        startswith_any_def startswith_def)

text \<open>
  Claim C2 fails on the code. When the payload has no \<^verbatim>\<open>organic\<close> key, \<^verbatim>\<open>data.get\<close> gives the
  default \<^verbatim>\<open>[]\<close>: the parsing returns the empty list and \<^verbatim>\<open>search\<close> returns a response with
  no results, where the claim (and the repository's test of a malformed response)
  expects a failure.
\<close>

theorem search_missing_organic:
  assumes "map_of d ''organic'' = None"
  shows "parse_results (JObj d) (query request) = Inr [] \<and>
         search self (Post_response 200 body (Inr (JObj d))) elapsed request =
           Inr \<lparr>results = [],
                metadata = [(''api_provider'', JStr ''serper''), (''status_code'', JInt 200),
                            (''request_timeout'', JInt (tool_timeout self))],
                response_query = query request, total_results = 0,
                response_time_ms = elapsed\<rparr>"
proof -
  have res: "parse_results (JObj d) (query request) = Inr []"
    using assms by (simp add: parse_results_def dict_get_def)
  show ?thesis using res search_ok [OF res, of self body elapsed] by simp
qed

theorem search_missing_organic_witness:
  "search \<lparr>api_key = ''key'', tool_timeout = 30, tool_max_results = 20,
           base_url = ''https://google.serper.dev/search''\<rparr>
     (Post_response 200 (Inr ''malformed'') (Inr (JObj [(''not_organic'', JList [])]))) 0
     \<lparr>query = ''test'', max_results = Some 1\<rparr> =
   Inr \<lparr>results = [],
        metadata = [(''api_provider'', JStr ''serper''), (''status_code'', JInt 200),
                    (''request_timeout'', JInt 30)],
        response_query = ''test'', total_results = 0, response_time_ms = 0\<rparr>"
proof -
  have h: "map_of [(''not_organic'', JList [])] ''organic'' = None" by simp
  show ?thesis
    using search_missing_organic [OF h, of "\<lparr>query = ''test'', max_results = Some 1\<rparr>"
        "\<lparr>api_key = ''key'', tool_timeout = 30, tool_max_results = 20,
           base_url = ''https://google.serper.dev/search''\<rparr>" "Inr ''malformed''" 0]
    by simp
qed

text \<open>
  Claim C8. For a payload whose \<^verbatim>\<open>organic\<close> list holds \<open>N\<close> well-formed entries, parsing
  and \<^verbatim>\<open>search\<close> give exactly \<open>N\<close> results, with ranks \<open>1..N\<close> and the URLs of the entries
  in the provider's order.
\<close>

theorem parse_results_well_formed:
  assumes "map_of d ''organic'' = Some (JList xs)" and "\<forall>e\<in>set xs. well_formed e"
  shows "\<exists>rs. parse_results (JObj d) q = Inr rs \<and> length rs = length xs \<and>
           map rank rs = map int [1..<Suc (length xs)] \<and> map url rs = map link xs \<and>
           (\<exists>resp. search self (Post_response 200 body (Inr (JObj d))) elapsed
                      \<lparr>query = q, max_results = m\<rparr> = Inr resp \<and>
                    results resp = rs \<and> total_results resp = int (length xs))"
proof -
  let ?rs = "parse_loop 0 xs []"
  have res: "parse_results (JObj d) q = Inr ?rs"
    using assms(1) by (rule parse_results_list)
  have all: "filter (\<lambda>(j, e). well_formed e) (enumerate 0 xs) = enumerate 0 xs"
    using assms(2) by (auto simp: filter_id_conv in_set_enumerate_eq)
  have len: "length ?rs = length xs" and urls: "map url ?rs = map link xs"
    using parse_loop_well_formed [OF assms(2), of 0 "[]"] by simp_all
  have ranks: "map rank ?rs = map int [1..<Suc (length xs)]"
    using parse_loop_ranks [of 0 xs "[]"] all ranks_all [of xs] by simp
  have "search self (Post_response 200 body (Inr (JObj d))) elapsed \<lparr>query = q, max_results = m\<rparr>
          = Inr \<lparr>results = ?rs,
          metadata = [(''api_provider'', JStr ''serper''), (''status_code'', JInt 200),
                      (''request_timeout'', JInt (tool_timeout self))],
          response_query = q, total_results = int (length ?rs),
          response_time_ms = elapsed\<rparr>"
    using search_ok [of "JObj d" "\<lparr>query = q, max_results = m\<rparr>" ?rs] res by simp
  then show ?thesis using res len urls ranks by simp
qed

theorem parse_results_well_formed_witness:
  "well_formed (JObj [(''title'', JStr ''A''), (''snippet'', JStr ''s''), (''link'', JStr ''https://a.example'')]) \<and>
   well_formed (JObj [(''link'', JStr ''http://b.example'')]) \<and>
   (\<exists>rs. parse_results (JObj [(''organic'', JList [JObj [(''title'', JStr ''A''), (''snippet'', JStr ''s''), (''link'', JStr ''https://a.example'')],
          JObj [(''link'', JStr ''http://b.example'')]])]) ''q'' = Inr rs \<and> length rs = 2 \<and> map rank rs = [1, 2]
     \<and> map url rs = [''https://a.example'', ''http://b.example''])"
proof -
  let ?xs = "[JObj [(''title'', JStr ''A''), (''snippet'', JStr ''s''), (''link'', JStr ''https://a.example'')],
          JObj [(''link'', JStr ''http://b.example'')]]"
  have h1: "map_of [(''organic'', JList ?xs)] ''organic'' = Some (JList ?xs)" by simp
  have h2: "\<forall>e\<in>set ?xs. well_formed e"
    by (simp add: well_formed_def is_str_def dict_get_def startswith_any_def startswith_def)
  have e: "map int [1..<Suc (length ?xs)] = [1, 2]" by (simp add: upt_rec)
  have l: "map link ?xs = [''https://a.example'', ''http://b.example'']"
    by (simp add: link_def dict_get_def)
  obtain rs where "parse_results (JObj [(''organic'', JList ?xs)]) ''q'' = Inr rs"
    "length rs = length ?xs" "map rank rs = map int [1..<Suc (length ?xs)]" "map url rs = map link ?xs"
    using parse_results_well_formed [OF h1 h2, of "''q''" undefined undefined undefined undefined] by blast
  then have "parse_results (JObj [(''organic'', JList ?xs)]) ''q'' = Inr rs \<and> length rs = 2 \<and>
      map rank rs = [1, 2] \<and> map url rs = [''https://a.example'', ''http://b.example'']"
    unfolding e l by simp
  then have "\<exists>rs. parse_results (JObj [(''organic'', JList ?xs)]) ''q'' = Inr rs \<and> length rs = 2 \<and>
      map rank rs = [1, 2] \<and> map url rs = [''https://a.example'', ''http://b.example'']"
    by (rule exI [where x = rs])
  moreover have "well_formed (JObj [(''title'', JStr ''A''), (''snippet'', JStr ''s''), (''link'', JStr ''https://a.example'')])"
    and "well_formed (JObj [(''link'', JStr ''http://b.example'')])"
    using h2 by simp_all
  ultimately show ?thesis by (intro conjI)
qed

text \<open>
  Claim C9. Every result that the parsing returns has a url that starts with
  \<^verbatim>\<open>http://\<close> or \<^verbatim>\<open>https://\<close>, whatever the payload.
\<close>

theorem parse_results_url_scheme:
  "parse_results data q = Inr rs \<Longrightarrow>
   \<forall>r\<in>set rs. startswith (url r) ''http://'' \<or> startswith (url r) ''https://''"
proof -
  assume a: "parse_results data q = Inr rs"
  then obtain xs where "rs = parse_loop 0 xs []"
    by (auto simp: parse_results_def split: json.splits)
  moreover have "\<forall>r\<in>set (parse_loop 0 xs []). startswith_any (url r) [''http://'', ''https://'']"
    by (rule parse_loop_urls) simp
  ultimately show ?thesis by (auto simp: startswith_any_def)
qed

theorem parse_results_url_scheme_witness:
  "parse_results (JObj [(''organic'', JList [JObj [(''link'', JStr ''ftp://x'')], JObj [(''link'', JStr ''http://b.example'')]])]) ''q''
     = Inr [\<lparr>title = ''No title'', snippet = ''No description'', url = ''http://b.example'', rank = 2\<rparr>]
   \<and> (startswith ''http://b.example'' ''http://'' \<or> startswith ''http://b.example'' ''https://'')"
proof -
  have h: "parse_results (JObj [(''organic'', JList [JObj [(''link'', JStr ''ftp://x'')], JObj [(''link'', JStr ''http://b.example'')]])]) ''q''
     = Inr [\<lparr>title = ''No title'', snippet = ''No description'', url = ''http://b.example'', rank = 2\<rparr>]"
    by (simp add: parse_results_def dict_get_def parse_entry_def SearchResult_def validate_url_def
        startswith_any_def startswith_def)
  show ?thesis using h parse_results_url_scheme [OF h] by simp
qed


section \<open>Properties of the supervisor and the front end\<close>

text \<open>
  Claim C3 fails on the code. A response line that decodes to a response with an empty
  \<^verbatim>\<open>result\<close> mapping and no \<^verbatim>\<open>error\<close> is rejected by \<^verbatim>\<open>if not response.result\<close>: the call
  raises "No result in MCP response" although a result is present.
\<close>

theorem call_tool_empty_result:
  assumes "is_running self" and "process self = Some p" and "line \<noteq> []"
    and "json_loads L (strip line) =
           Inr (JObj [(''jsonrpc'', JStr ''2.0''), (''id'', JStr i), (''result'', JObj [])])"
  shows "call_tool L (Read_line line) self method params =
           Inl (RuntimeError ''Error calling MCP tool: No result in MCP response'')"
  using assms
  by (simp add: call_tool_def call_tool_try_def JSONRPCResponse_def optional_dict_def)

theorem call_tool_empty_result_witness:
  "call_tool
     \<lparr>json_loads = (\<lambda>s. if s = ''{\"jsonrpc\": \"2.0\", \"id\": \"1\", \"result\": {}}''
                        then Inr (JObj [(''jsonrpc'', JStr ''2.0''), (''id'', JStr ''1''),
                                        (''result'', JObj [])])
                        else Inl (JSONDecodeError ''Expecting value'')),
      py_str = (\<lambda>v. type_name v), lax_int = (\<lambda>v. None)\<rparr>
     (Read_line (''{\"jsonrpc\": \"2.0\", \"id\": \"1\", \"result\": {}}'' @ [CHR 0x0A]))
     \<lparr>process = Some \<lparr>exit_status = None, stderr = Some []\<rparr>, is_running = True, timeout = 30\<rparr>
     ''web_search'' [(''query'', JStr ''test''), (''max_results'', JInt 1)] =
   Inl (RuntimeError ''Error calling MCP tool: No result in MCP response'')"
  by (rule call_tool_empty_result [where p = "\<lparr>exit_status = None, stderr = Some []\<rparr>" and i = "''1''"])
     (simp_all add: strip_def isspace_def)

text \<open>
  Claim C4 fails on the code. When \<^verbatim>\<open>start_server\<close> finds that the child has exited during
  the sleep, its \<^verbatim>\<open>except\<close> clause calls \<^verbatim>\<open>cleanup\<close>, but \<^verbatim>\<open>stop_server\<close> acts only when
  \<^verbatim>\<open>is_running\<close> is set, which it never was: the exception is raised again with the handle
  of the dead child still in \<^verbatim>\<open>process\<close>.
\<close>

theorem start_server_keeps_dead_handle:
  assumes "\<not> is_running self" and "exit_status p = Some code"
  shows "start_server (Inr p) env self =
           (Inl (RuntimeError (''MCP server failed to start: '' @
                   (case stderr p of Some t \<Rightarrow> t | None \<Rightarrow> ''Unknown error''))),
            self\<lparr>process := Some p\<rparr>) \<and>
         process (snd (start_server (Inr p) env self)) \<noteq> None"
  using assms
  by (simp add: start_server_def start_server_except_def cleanup_def stop_server_def Let_def)

theorem start_server_keeps_dead_handle_witness:
  "start_server (Inr \<lparr>exit_status = Some 1, stderr = Some ''SERPER_API_KEY is required''\<rparr>)
     Exits_in_time MCPClient =
     (Inl (RuntimeError ''MCP server failed to start: SERPER_API_KEY is required''),
      \<lparr>process = Some \<lparr>exit_status = Some 1, stderr = Some ''SERPER_API_KEY is required''\<rparr>,
       is_running = False, timeout = 30\<rparr>)"
proof -
  have h1: "\<not> is_running MCPClient" by (simp add: MCPClient_def)
  have h2: "exit_status \<lparr>exit_status = Some 1, stderr = Some ''SERPER_API_KEY is required''\<rparr> = Some 1"
    by simp
  show ?thesis using start_server_keeps_dead_handle [OF h1 h2, of Exits_in_time] by (simp add: MCPClient_def)
qed

text \<open>A text that holds \<open>sub\<close> between two others contains it.\<close>

lemma contains_startswith: "startswith s sub \<Longrightarrow> contains s sub"
  by (cases s) (simp_all add: startswith_def)

lemma contains_append: "contains (pre @ sub @ suf) sub"
proof (induction pre)
  case Nil
  have "startswith (sub @ suf) sub" by (simp add: startswith_def)
  then show ?case by (simp add: contains_startswith)
next
  case (Cons c pre)
  then show ?case by simp
qed

lemma timed_out_message: "contains (a @ ''MCP tool call timed out after '' @ n @ '' seconds'') ''timed out''"
proof -
  have "a @ ''MCP tool call timed out after '' @ n @ '' seconds''
        = (a @ ''MCP tool call '') @ ''timed out'' @ ('' after '' @ n @ '' seconds'')"
    by simp
  then show ?thesis by (simp only: contains_append)
qed

text \<open>
  Claim C6. When a running supervisor's call gets no response line within the timeout,
  \<^verbatim>\<open>call_tool\<close> raises an error whose message contains "timed out", and the \<^verbatim>\<open>/search\<close>
  handler answers with status 500 and a detail that contains "timed out".
\<close>

theorem call_timeout_to_500:
  assumes "is_running self" and "process self = Some p"
  shows "call_tool L Read_timeout self method params =
           Inl (RuntimeError (''MCP tool call timed out after '' @ str_int (timeout self) @ '' seconds'')) \<and>
         contains (''MCP tool call timed out after '' @ str_int (timeout self) @ '' seconds'') ''timed out'' \<and>
         search_web L Read_timeout self request =
           Inl \<lparr>status_code = 500,
                detail = ''Search failed: MCP tool call timed out after '' @ str_int (timeout self) @ '' seconds''\<rparr> \<and>
         contains (''Search failed: MCP tool call timed out after '' @ str_int (timeout self) @ '' seconds'') ''timed out''"
proof -
  have c: "call_tool L Read_timeout self name args =
           Inl (RuntimeError (''MCP tool call timed out after '' @ str_int (timeout self) @ '' seconds''))"
    for name args
    using assms by (simp add: call_tool_def call_tool_try_def)
  have s: "search_web L Read_timeout self request =
           Inl \<lparr>status_code = 500,
                detail = ''Search failed: MCP tool call timed out after '' @ str_int (timeout self) @ '' seconds''\<rparr>"
    by (simp add: search_web_def search_web_try_def client_search_def c)
  have m1: "contains (''MCP tool call timed out after '' @ str_int (timeout self) @ '' seconds'') ''timed out''"
    using timed_out_message [of "[]"] by simp
  have m2: "contains (''Search failed: MCP tool call timed out after '' @ str_int (timeout self) @ '' seconds'') ''timed out''"
    using timed_out_message [of "''Search failed: ''"] by simp
  show ?thesis using c s m1 m2 by (intro conjI)
qed

theorem call_timeout_to_500_witness:
  "call_tool \<lparr>json_loads = (\<lambda>s. Inl (JSONDecodeError ''Expecting value'')),
              py_str = type_name, lax_int = (\<lambda>v. None)\<rparr> Read_timeout
     \<lparr>process = Some \<lparr>exit_status = None, stderr = Some []\<rparr>, is_running = True, timeout = 30\<rparr>
     ''web_search'' [(''query'', JStr ''test''), (''max_results'', JInt 1)] =
     Inl (RuntimeError ''MCP tool call timed out after 30 seconds'') \<and>
   search_web \<lparr>json_loads = (\<lambda>s. Inl (JSONDecodeError ''Expecting value'')),
              py_str = type_name, lax_int = (\<lambda>v. None)\<rparr> Read_timeout
     \<lparr>process = Some \<lparr>exit_status = None, stderr = Some []\<rparr>, is_running = True, timeout = 30\<rparr>
     \<lparr>query = ''test'', max_results = Some 1\<rparr> =
     Inl \<lparr>status_code = 500,
          detail = ''Search failed: MCP tool call timed out after 30 seconds''\<rparr> \<and>
   contains ''Search failed: MCP tool call timed out after 30 seconds'' ''timed out''"
proof -
  let ?self = "\<lparr>process = Some \<lparr>exit_status = None, stderr = Some []\<rparr>, is_running = True,
                timeout = 30\<rparr>"
  have h1: "is_running ?self" by simp
  have h2: "process ?self = Some \<lparr>exit_status = None, stderr = Some []\<rparr>" by simp
  have n: "str_int (timeout ?self) = ''30''"
    by (simp add: str_int_def str_nat.simps)
  show ?thesis
    using call_timeout_to_500 [OF h1 h2, of "\<lparr>json_loads = (\<lambda>s. Inl (JSONDecodeError ''Expecting value'')),
              py_str = type_name, lax_int = (\<lambda>v. None)\<rparr>" "''web_search''"
              "[(''query'', JStr ''test''), (''max_results'', JInt 1)]"
              "\<lparr>query = ''test'', max_results = Some 1\<rparr>"]
    unfolding n by simp
qed

text \<open>
  Claim C7. When the handle shows that the child has exited, the health check answers
  false, the running flag is false afterwards, and \<^verbatim>\<open>/health\<close> reports
  \<^verbatim>\<open>mcp_server_running=false\<close> with status "unhealthy".
\<close>

theorem health_after_exit:
  assumes "process self = Some p" and "exit_status p = Some code"
  shows "\<not> fst (check_health self) \<and> \<not> is_running (snd (check_health self)) \<and>
         \<not> mcp_server_running (fst (health_check self)) \<and>
         health_status (fst (health_check self)) = ''unhealthy'' \<and>
         \<not> is_running (snd (health_check self)) \<and>
         (is_running self \<longrightarrow> snd (health_check self) = self\<lparr>is_running := False\<rparr>)"
  using assms by (simp add: check_health_def health_check_def)

theorem health_after_exit_witness:
  "is_running \<lparr>process = Some \<lparr>exit_status = Some 1, stderr = Some ''crash''\<rparr>,
               is_running = True, timeout = 30\<rparr> \<and>
   health_check \<lparr>process = Some \<lparr>exit_status = Some 1, stderr = Some ''crash''\<rparr>,
                 is_running = True, timeout = 30\<rparr> =
     (\<lparr>health_status = ''unhealthy'', mcp_server_running = False,
       health_error = Some ''MCP server is not responding''\<rparr>,
      \<lparr>process = Some \<lparr>exit_status = Some 1, stderr = Some ''crash''\<rparr>,
       is_running = False, timeout = 30\<rparr>)"
proof -
  let ?p = "\<lparr>exit_status = Some 1, stderr = Some ''crash''\<rparr>"
  let ?self = "\<lparr>process = Some ?p, is_running = True, timeout = 30\<rparr>"
  have h1: "process ?self = Some ?p" by simp
  have h2: "exit_status ?p = Some 1" by simp
  show ?thesis using health_after_exit [OF h1 h2] by (simp add: check_health_def health_check_def)
qed

text \<open>The running flag under each operation, and along a history without a start.\<close>

lemma check_health_stopped: "\<not> is_running self \<Longrightarrow> check_health self = (False, self)"
  by (simp add: check_health_def)

lemma check_health_flag: "is_running (snd (check_health self)) \<Longrightarrow> is_running self"
  by (simp add: check_health_def split: if_splits)

lemma stop_server_flag: "is_running (snd (stop_server env self)) \<Longrightarrow> is_running self"
  by (simp add: stop_server_def split: if_splits)

lemma start_server_flag:
  "is_running (snd (start_server spawn env self)) \<Longrightarrow> \<not> is_running self \<Longrightarrow>
   \<exists>p. spawn = Inr p \<and> exit_status p = None"
  by (cases spawn)
     (auto simp: start_server_def start_server_except_def cleanup_def stop_server_def Let_def
       split: if_splits)

lemma step_flag: "\<not> is_start e \<Longrightarrow> is_running (snd (step e self)) \<Longrightarrow> is_running self"
  by (cases e) (auto simp: child_exits_def dest: check_health_flag stop_server_flag)

lemma step_stopped:
  "\<not> is_start e \<Longrightarrow> \<not> is_running self \<Longrightarrow> \<forall>b\<in>set (fst (step e self)). \<not> b"
  by (cases e) (simp_all add: check_health_stopped)

lemma run_stopped:
  "\<forall>e\<in>set es. \<not> is_start e \<Longrightarrow> \<not> is_running self \<Longrightarrow>
   (\<forall>b\<in>set (fst (run es self)). \<not> b) \<and> \<not> is_running (snd (run es self))"
proof (induction es arbitrary: self)
  case Nil
  then show ?case by simp
next
  case (Cons e es)
  have e: "\<not> is_start e" using Cons.prems(1) by simp
  have rest: "\<forall>e\<in>set es. \<not> is_start e" using Cons.prems(1) by simp
  have s: "\<not> is_running (snd (step e self))"
    using step_flag [OF e] Cons.prems(2) by blast
  have o: "\<forall>b\<in>set (fst (step e self)). \<not> b"
    using step_stopped [OF e Cons.prems(2)] .
  have ih: "(\<forall>b\<in>set (fst (run es (snd (step e self)))). \<not> b) \<and>
            \<not> is_running (snd (run es (snd (step e self))))"
    using Cons.IH [OF rest s] .
  have r: "run (e # es) self =
             (fst (step e self) @ fst (run es (snd (step e self))),
              snd (run es (snd (step e self))))"
    by (simp split: prod.splits)
  show ?case unfolding r using o ih by auto
qed

lemma consistent_start: "consistent self \<Longrightarrow> consistent (snd (start_server spawn env self))"
  by (cases spawn)
     (auto simp: consistent_def start_server_def start_server_except_def cleanup_def
        stop_server_def Let_def)

lemma consistent_step: "consistent self \<Longrightarrow> consistent (snd (step e self))"
proof (cases e)
  case (Start spawn env)
  assume "consistent self"
  then show ?thesis using Start by (simp add: consistent_start)
next
  case (Stop env)
  assume "consistent self"
  then show ?thesis using Stop by (simp add: consistent_def stop_server_def)
next
  case Check_health
  assume "consistent self"
  then show ?thesis using Check_health by (auto simp: consistent_def check_health_def)
next
  case (Call io name args)
  assume "consistent self"
  then show ?thesis using Call by simp
next
  case (Child_exits code)
  assume "consistent self"
  then show ?thesis using Child_exits by (auto simp: consistent_def child_exits_def)
qed

lemma run_Cons:
  "run (e # es) self =
     (fst (step e self) @ fst (run es (snd (step e self))), snd (run es (snd (step e self))))"
  by (simp split: prod.splits)

lemma consistent_run: "consistent self \<Longrightarrow> consistent (snd (run es self))"
proof (induction es arbitrary: self)
  case Nil
  then show ?case by simp
next
  case (Cons e es)
  have "consistent (snd (run es (snd (step e self))))"
    using Cons.IH [OF consistent_step [OF Cons.prems]] .
  then show ?case by (simp only: run_Cons snd_conv)
qed

lemma consistent_reachable: "consistent (snd (run pre MCPClient))"
  by (rule consistent_run) (simp add: consistent_def MCPClient_def)

lemma stop_server_clears: "consistent self \<Longrightarrow> \<not> is_running (snd (stop_server env self))"
  by (auto simp: consistent_def stop_server_def)

lemma check_health_clears:
  "consistent self \<Longrightarrow> \<not> fst (check_health self) \<Longrightarrow> \<not> is_running (snd (check_health self))"
  by (auto simp: consistent_def check_health_def split: if_splits)

lemma run_after_stop:
  assumes "consistent self" and "\<forall>e\<in>set es. \<not> is_start e"
  shows "(\<forall>b\<in>set (fst (run (Stop env # es) self)). \<not> b) \<and>
         \<not> is_running (snd (run (Stop env # es) self))"
proof -
  have r: "run (Stop env # es) self = run es (snd (stop_server env self))"
    by (simp add: run_Cons del: run.simps)
  show ?thesis unfolding r
    using assms(2) stop_server_clears [OF assms(1), of env] by (rule run_stopped)
qed

lemma run_after_failed_check:
  assumes "consistent self" and "\<forall>e\<in>set es. \<not> is_start e" and "\<not> fst (check_health self)"
  shows "(\<forall>b\<in>set (fst (run (Check_health # es) self)). \<not> b) \<and>
         \<not> is_running (snd (run (Check_health # es) self))"
proof -
  have r: "run (Check_health # es) self =
             (fst (check_health self) # fst (run es (snd (check_health self))),
              snd (run es (snd (check_health self))))"
    by (simp add: run_Cons del: run.simps)
  show ?thesis unfolding r
    using run_stopped [OF assms(2) check_health_clears [OF assms(1) assms(3)]] assms(3) by auto
qed

text \<open>
  Claim C10. The running flag becomes true only in a start whose poll finds the child
  alive; the health check, the stop and every other event that is no start never raise
  it. On every client that a history of events reaches from the fresh one, a stop leaves
  the flag false, and so does a health check that answers false (an observed crash).
  After either, and from any client whose flag is false, along every history without a
  start each health check answers false and the flag stays false.
\<close>

theorem running_flag:
  "(is_running (snd (start_server spawn env self)) \<and> \<not> is_running self \<longrightarrow>
      (\<exists>p. spawn = Inr p \<and> exit_status p = None)) \<and>
   (is_running (snd (check_health self)) \<longrightarrow> is_running self) \<and>
   (is_running (snd (stop_server env self)) \<longrightarrow> is_running self) \<and>
   (\<not> is_start e \<and> is_running (snd (step e self)) \<longrightarrow> is_running self) \<and>
   \<not> is_running (snd (stop_server env (snd (run pre MCPClient)))) \<and>
   (\<not> fst (check_health (snd (run pre MCPClient))) \<longrightarrow>
      \<not> is_running (snd (check_health (snd (run pre MCPClient))))) \<and>
   ((\<forall>e\<in>set es. \<not> is_start e) \<longrightarrow>
      (\<forall>b\<in>set (fst (run (Stop env # es) (snd (run pre MCPClient)))). \<not> b) \<and>
      \<not> is_running (snd (run (Stop env # es) (snd (run pre MCPClient))))) \<and>
   ((\<forall>e\<in>set es. \<not> is_start e) \<and> \<not> fst (check_health (snd (run pre MCPClient))) \<longrightarrow>
      (\<forall>b\<in>set (fst (run (Check_health # es) (snd (run pre MCPClient)))). \<not> b) \<and>
      \<not> is_running (snd (run (Check_health # es) (snd (run pre MCPClient))))) \<and>
   (\<not> is_running self \<and> (\<forall>e\<in>set es. \<not> is_start e) \<longrightarrow>
      (\<forall>b\<in>set (fst (run es self)). \<not> b) \<and> \<not> is_running (snd (run es self)))"
proof -
  let ?c = "snd (run pre MCPClient)"
  have c: "consistent ?c" by (rule consistent_reachable)
  have 1: "is_running (snd (start_server spawn env self)) \<and> \<not> is_running self \<longrightarrow>
      (\<exists>p. spawn = Inr p \<and> exit_status p = None)"
    using start_server_flag [of spawn env self] by blast
  have 2: "is_running (snd (check_health self)) \<longrightarrow> is_running self"
    using check_health_flag [of self] by blast
  have 3: "is_running (snd (stop_server env self)) \<longrightarrow> is_running self"
    using stop_server_flag [of env self] by blast
  have 4: "\<not> is_start e \<and> is_running (snd (step e self)) \<longrightarrow> is_running self"
    using step_flag [of e self] by blast
  have 5: "\<not> is_running (snd (stop_server env ?c))"
    using stop_server_clears [OF c] .
  have 6: "\<not> fst (check_health ?c) \<longrightarrow> \<not> is_running (snd (check_health ?c))"
    using check_health_clears [OF c] by blast
  have 7: "(\<forall>e\<in>set es. \<not> is_start e) \<longrightarrow>
      (\<forall>b\<in>set (fst (run (Stop env # es) ?c)). \<not> b) \<and>
      \<not> is_running (snd (run (Stop env # es) ?c))"
    using run_after_stop [OF c, of es env] by blast
  have 8: "(\<forall>e\<in>set es. \<not> is_start e) \<and> \<not> fst (check_health ?c) \<longrightarrow>
      (\<forall>b\<in>set (fst (run (Check_health # es) ?c)). \<not> b) \<and>
      \<not> is_running (snd (run (Check_health # es) ?c))"
    using run_after_failed_check [OF c, of es] by blast
  have 9: "\<not> is_running self \<and> (\<forall>e\<in>set es. \<not> is_start e) \<longrightarrow>
      (\<forall>b\<in>set (fst (run es self)). \<not> b) \<and> \<not> is_running (snd (run es self))"
    using run_stopped [of es self] by blast
  show ?thesis using 1 2 3 4 5 6 7 8 9 by (intro conjI)
qed

theorem running_flag_witness:
  "is_running (snd (run [Start (Inr \<lparr>exit_status = None, stderr = Some []\<rparr>) Exits_in_time] MCPClient)) \<and>
   fst (check_health (snd (run [Start (Inr \<lparr>exit_status = None, stderr = Some []\<rparr>) Exits_in_time]
          MCPClient))) \<and>
   \<not> is_running (snd (stop_server Exits_in_time
        (snd (run [Start (Inr \<lparr>exit_status = None, stderr = Some []\<rparr>) Exits_in_time] MCPClient)))) \<and>
   fst (run (Stop Exits_in_time # [Check_health, Call Read_timeout ''web_search'' [], Check_health])
          (snd (run [Start (Inr \<lparr>exit_status = None, stderr = Some []\<rparr>) Exits_in_time] MCPClient)))
     = [False, False] \<and>
   \<not> is_running (snd (run (Stop Exits_in_time #
          [Check_health, Call Read_timeout ''web_search'' [], Check_health])
          (snd (run [Start (Inr \<lparr>exit_status = None, stderr = Some []\<rparr>) Exits_in_time] MCPClient)))) \<and>
   \<not> fst (check_health (snd (run [Start (Inr \<lparr>exit_status = None, stderr = Some []\<rparr>) Exits_in_time,
          Child_exits 1] MCPClient))) \<and>
   fst (run (Check_health # [Check_health])
          (snd (run [Start (Inr \<lparr>exit_status = None, stderr = Some []\<rparr>) Exits_in_time,
             Child_exits 1] MCPClient)))
     = [False, False] \<and>
   \<not> is_running MCPClient"
proof -
  let ?start = "Start (Inr \<lparr>exit_status = None, stderr = Some []\<rparr>) Exits_in_time"
  let ?es = "[Check_health, Call Read_timeout ''web_search'' [], Check_health]"
  have h: "\<forall>e\<in>set ?es. \<not> is_start e" by simp
  have live: "snd (run [?start] MCPClient) =
      \<lparr>process = Some \<lparr>exit_status = None, stderr = Some []\<rparr>, is_running = True, timeout = 30\<rparr>"
    by (simp add: start_server_def MCPClient_def)
  have dead: "snd (run [?start, Child_exits 1] MCPClient) =
      \<lparr>process = Some \<lparr>exit_status = Some 1, stderr = Some []\<rparr>, is_running = True, timeout = 30\<rparr>"
    by (simp add: start_server_def MCPClient_def child_exits_def)
  have a: "is_running (snd (run [?start] MCPClient))"
    unfolding live by simp
  have b: "fst (check_health (snd (run [?start] MCPClient)))"
    unfolding live by (simp add: check_health_def)
  have c: "\<not> is_running (snd (stop_server Exits_in_time (snd (run [?start] MCPClient))))"
    using running_flag [of "Inl AsyncioTimeoutError" Exits_in_time MCPClient Check_health
        "[?start]" ?es] by blast
  have d: "\<not> is_running (snd (run (Stop Exits_in_time # ?es) (snd (run [?start] MCPClient))))"
    using running_flag [of "Inl AsyncioTimeoutError" Exits_in_time MCPClient Check_health
        "[?start]" ?es] h by blast
  have e: "fst (run (Stop Exits_in_time # ?es) (snd (run [?start] MCPClient))) = [False, False]"
    unfolding live by (simp add: stop_server_def check_health_def)
  have f: "\<not> fst (check_health (snd (run [?start, Child_exits 1] MCPClient)))"
    unfolding dead by (simp add: check_health_def)
  have g: "fst (run (Check_health # [Check_health]) (snd (run [?start, Child_exits 1] MCPClient)))
             = [False, False]"
    unfolding dead by (simp add: check_health_def)
  have i: "\<not> is_running MCPClient" by (simp add: MCPClient_def)
  show ?thesis using a b c e d f g i by (intro conjI)
qed


section \<open>Properties of the worker's handler\<close>

text \<open>
  Claim C5. The handler returns a response for every request, whatever \<^verbatim>\<open>search\<close> does;
  when the body of its \<^verbatim>\<open>try\<close> raises an exception, the response carries a message under
  \<^verbatim>\<open>error\<close>, the kind of the exception under \<^verbatim>\<open>error_type\<close>, and the status "error".
\<close>

theorem web_search_catches:
  "(\<exists>d. web_search search_fn q m = Inr d) \<and>
   (\<forall>e. web_search_try search_fn q m = Inl e \<longrightarrow>
      (\<exists>d msg kind. web_search search_fn q m = Inr d \<and>
         map_of d ''error'' = Some (JStr msg) \<and> msg \<noteq> [] \<and>
         map_of d ''error_type'' = Some (JStr kind) \<and>
         kind = (case e of WebSearchTimeoutError t \<Rightarrow> ''timeout''
                   | WebSearchAPIError t \<Rightarrow> ''api_error''
                   | WebSearchError t \<Rightarrow> ''search_error''
                   | _ \<Rightarrow> ''internal_error'') \<and>
         map_of d ''status'' = Some (JStr ''error'')))"
proof -
  have a: "\<exists>d. web_search_except e = Inr d" for e
    by (cases e) simp_all
  have b: "\<exists>d msg kind. web_search_except e = Inr d \<and>
         map_of d ''error'' = Some (JStr msg) \<and> msg \<noteq> [] \<and>
         map_of d ''error_type'' = Some (JStr kind) \<and>
         kind = (case e of WebSearchTimeoutError t \<Rightarrow> ''timeout''
                   | WebSearchAPIError t \<Rightarrow> ''api_error''
                   | WebSearchError t \<Rightarrow> ''search_error''
                   | _ \<Rightarrow> ''internal_error'') \<and>
         map_of d ''status'' = Some (JStr ''error'')" for e
    by (cases e) simp_all
  show ?thesis
  proof (cases "web_search_try search_fn q m")
    case (Inl e)
    then show ?thesis using a [of e] b [of e] by (simp add: web_search_def)
  next
    case (Inr d)
    then show ?thesis by (simp add: web_search_def)
  qed
qed

theorem web_search_catches_witness:
  "web_search_try (\<lambda>request. Inl (WebSearchTimeoutError ''Request timed out after 30 seconds''))
      ''test'' (Some 1) = Inl (WebSearchTimeoutError ''Request timed out after 30 seconds'') \<and>
   (\<exists>d msg. web_search (\<lambda>request. Inl (WebSearchTimeoutError ''Request timed out after 30 seconds''))
      ''test'' (Some 1) = Inr d \<and> map_of d ''error'' = Some (JStr msg) \<and>
      map_of d ''error_type'' = Some (JStr ''timeout''))"
proof -
  let ?f = "\<lambda>request :: web_search_request. (Inl (WebSearchTimeoutError ''Request timed out after 30 seconds'') :: exn + web_search_response)"
  have h: "web_search_try ?f ''test'' (Some 1) = Inl (WebSearchTimeoutError ''Request timed out after 30 seconds'')"
    by (simp add: web_search_try_def WebSearchRequest_def)
  obtain d msg kind where "web_search ?f ''test'' (Some 1) = Inr d"
    "map_of d ''error'' = Some (JStr msg)" "map_of d ''error_type'' = Some (JStr kind)"
    "kind = ''timeout''"
    using web_search_catches [of ?f "''test''" "Some 1"] h by auto
  then have "web_search ?f ''test'' (Some 1) = Inr d \<and> map_of d ''error'' = Some (JStr msg) \<and>
      map_of d ''error_type'' = Some (JStr ''timeout'')" by simp
  then have "\<exists>d msg. web_search ?f ''test'' (Some 1) = Inr d \<and> map_of d ''error'' = Some (JStr msg) \<and>
      map_of d ''error_type'' = Some (JStr ''timeout'')"
    by (intro exI [where x = d] exI [where x = msg])
  with h show ?thesis by (rule conjI)
qed

end
